theory Spec2Isabelle
  imports Main "HOL-Library.Char_ord"
begin

section \<open>The stock ledger of run.py\<close>

text \<open>
  A Python \<open>str\<close> is modelled as a \<open>string\<close>: a list of 8-bit characters, read as
  the code points U+0000 to U+00FF. The character classes of Python that the program
  uses (\<open>str.isspace\<close>, \<open>str.isdigit\<close>, the classes of the regular expression and the
  digits accepted by \<open>int\<close>) are written out on that range. Python's integers are
  unbounded, so quantities are \<open>int\<close>. The dictionary \<open>self.stock\<close> is a map from
  SKU to quantity.
\<close>

type_synonym stock = "string \<rightharpoonup> int"

subsection \<open>Exceptions\<close>

text \<open>
  Every \<open>StockError\<close> of the program is raised at one of five places, each with its own
  message; the constructor records the place and the values formatted into the message.
  \<open>IndexError\<close> and \<open>ValueError\<close> are the built-in exceptions of list indexing and of
  \<open>int\<close>; they are not instances of \<open>StockError\<close>.
\<close>

datatype stock_error =
    InvalidSkuFormat string
  | InvalidAmountFormat string
  | SkuNotFound string
  | InsufficientStock string string
  | UnknownOperation string

datatype exn = StockError stock_error | IndexError | ValueError

type_synonym 'a result = "exn + 'a"

subsection \<open>Character classes and built-ins of Python\<close>

definition isspace :: "char \<Rightarrow> bool" where
  \<comment> \<open>\<open>str.isspace\<close> below U+0100: TAB, LF, VT, FF, CR, FS, GS, RS, US, space, NEL, NBSP\<close>
  "isspace c =
     (let n = (of_char c :: nat)
      in (9 \<le> n \<and> n \<le> 13) \<or> (28 \<le> n \<and> n \<le> 32) \<or> n = 133 \<or> n = 160)"

definition is_decimal :: "char \<Rightarrow> bool" where
  \<comment> \<open>the class \<open>[0-9]\<close>; below U+0100 also the only digits \<open>int\<close> accepts\<close>
  "is_decimal c = (CHR ''0'' \<le> c \<and> c \<le> CHR ''9'')"

definition is_upper :: "char \<Rightarrow> bool" where
  \<comment> \<open>the class \<open>[A-Z]\<close>\<close>
  "is_upper c = (CHR ''A'' \<le> c \<and> c \<le> CHR ''Z'')"

definition isdigit_char :: "char \<Rightarrow> bool" where
  \<comment> \<open>Numeric_Type Decimal or Digit below U+0100: \<open>0\<close> to \<open>9\<close> and the superscripts
      two (U+00B2), three (U+00B3) and one (U+00B9)\<close>
  "isdigit_char c =
     (is_decimal c \<or> c = CHR 0xB2 \<or> c = CHR 0xB3 \<or> c = CHR 0xB9)"

definition isdigit :: "string \<Rightarrow> bool" where
  \<comment> \<open>\<open>s.isdigit()\<close>: at least one character, and all of them digits\<close>
  "isdigit s = (s \<noteq> [] \<and> list_all isdigit_char s)"

definition digit_value :: "char \<Rightarrow> int" where
  "digit_value c = int (of_char c) - 48"

definition decimal_value :: "string \<Rightarrow> int" where
  "decimal_value s = foldl (\<lambda>acc c. 10 * acc + digit_value c) 0 s"

definition py_int :: "string \<Rightarrow> int result" where
  \<comment> \<open>\<open>int(s)\<close> on a string \<open>s\<close> with \<open>s.isdigit()\<close>, the only strings the program
      passes to it: the value of the decimal digits, and \<open>ValueError\<close> when a character is
      a digit that is not decimal. (CPython's configurable limit on the length of a
      decimal literal is not part of the model.)\<close>
  "py_int s =
     (if s \<noteq> [] \<and> list_all is_decimal s then Inr (decimal_value s) else Inl ValueError)"

fun split_from :: "string \<Rightarrow> string \<Rightarrow> string list" where
  \<comment> \<open>the scan of \<open>str.split()\<close>; the second argument is the current word, reversed\<close>
  "split_from cur [] = (if cur = [] then [] else [rev cur])"
| "split_from cur (c # cs) =
     (if isspace c then (if cur = [] then split_from [] cs else rev cur # split_from [] cs)
      else split_from (c # cur) cs)"

definition py_split :: "string \<Rightarrow> string list" where
  \<comment> \<open>\<open>s.split()\<close>: the maximal runs of non-whitespace characters\<close>
  "py_split s = split_from [] s"

definition py_strip :: "string \<Rightarrow> string" where
  \<comment> \<open>\<open>s.strip()\<close>\<close>
  "py_strip s = rev (dropWhile isspace (rev (dropWhile isspace s)))"

fun every_other :: "'a list \<Rightarrow> 'a list" where
  \<comment> \<open>the slice \<open>xs[::2]\<close>\<close>
  "every_other [] = []"
| "every_other [x] = [x]"
| "every_other (x # y # xs) = x # every_other xs"

definition slice2 :: "nat \<Rightarrow> 'a list \<Rightarrow> 'a list" where
  \<comment> \<open>the slice \<open>xs[k::2]\<close>\<close>
  "slice2 k xs = every_other (drop k xs)"

subsection \<open>Validation\<close>

definition sku_match :: "string \<Rightarrow> bool" where
  \<comment> \<open>\<open>re.match(r"^[A-Z]{1,3}-[0-9]{1,3}$", sku)\<close>. The three classes are disjoint, so
      each run is the longest one; \<open>$\<close> matches at the end of the string and also just
      before a line feed that ends the string.\<close>
  "sku_match sku =
     (let letters = takeWhile is_upper sku; r1 = dropWhile is_upper sku
      in 1 \<le> length letters \<and> length letters \<le> 3 \<and>
         (case r1 of
            [] \<Rightarrow> False
          | c # r2 \<Rightarrow>
              c = CHR ''-'' \<and>
              (let digits = takeWhile is_decimal r2; r3 = dropWhile is_decimal r2
               in 1 \<le> length digits \<and> length digits \<le> 3 \<and> (r3 = [] \<or> r3 = [CHR 0x0A]))))"

definition validate_sku :: "string \<Rightarrow> unit result" where
  "validate_sku sku =
     (if \<not> sku_match sku then Inl (StockError (InvalidSkuFormat sku)) else Inr ())"

definition validate_amount :: "string \<Rightarrow> unit result" where
  \<comment> \<open>\<open>or\<close> is short-circuit: \<open>int(amount)\<close> runs only when \<open>amount.isdigit()\<close>\<close>
  "validate_amount amount =
     (if \<not> isdigit amount then Inl (StockError (InvalidAmountFormat amount))
      else case py_int amount of
             Inl e \<Rightarrow> Inl e
           | Inr n \<Rightarrow>
               if \<not> (0 \<le> n \<and> n \<le> 999) then Inl (StockError (InvalidAmountFormat amount))
               else Inr ())"

definition validate_pair :: "string \<Rightarrow> string \<Rightarrow> unit result" where
  \<comment> \<open>the body of the \<open>try\<close>: \<open>validate_sku\<close>, then \<open>validate_amount\<close>\<close>
  "validate_pair sku amount =
     (case validate_sku sku of Inl e \<Rightarrow> Inl e | Inr _ \<Rightarrow> validate_amount amount)"

subsection \<open>The handlers\<close>

text \<open>
  A handler mutates \<open>self.stock\<close> in place, so an exception leaves the mutations made
  before it: every handler returns the table together with its outcome. Each loop body
  raises before it mutates, so a body is a function from the table to an exception or the
  new table, and the \<open>for\<close> loop stops at the first exception.
\<close>

fun for_each :: "(stock \<Rightarrow> 'a \<Rightarrow> exn + stock) \<Rightarrow> stock \<Rightarrow> 'a list \<Rightarrow> unit result \<times> stock" where
  "for_each body t [] = (Inr (), t)"
| "for_each body t (x # xs) =
     (case body t x of Inl e \<Rightarrow> (Inl e, t) | Inr t' \<Rightarrow> for_each body t' xs)"

definition set_stock_body :: "stock \<Rightarrow> string \<times> string \<Rightarrow> exn + stock" where
  "set_stock_body t p =
     (case p of (sku, amount) \<Rightarrow>
        (case validate_pair sku amount of
           Inl (StockError _) \<Rightarrow> Inr t
         | Inl e \<Rightarrow> Inl e
         | Inr _ \<Rightarrow>
             (case py_int amount of
                Inl e \<Rightarrow> Inl e
              | Inr n \<Rightarrow> Inr (t(sku \<mapsto> n)))))"

definition process_set_stock :: "stock \<Rightarrow> string list \<Rightarrow> unit result \<times> stock" where
  "process_set_stock t parts =
     for_each set_stock_body t (zip (slice2 0 parts) (slice2 1 parts))"

definition add_stock_body :: "stock \<Rightarrow> string \<times> string \<Rightarrow> exn + stock" where
  "add_stock_body t p =
     (case p of (sku, amount) \<Rightarrow>
        (case validate_pair sku amount of
           Inl (StockError _) \<Rightarrow> Inr t
         | Inl e \<Rightarrow> Inl e
         | Inr _ \<Rightarrow>
             (case t sku of
                None \<Rightarrow> Inl (StockError (SkuNotFound sku))
              | Some level \<Rightarrow>
                  (case py_int amount of
                     Inl e \<Rightarrow> Inl e
                   | Inr n \<Rightarrow> Inr (t(sku \<mapsto> level + n))))))"

definition process_add_stock :: "stock \<Rightarrow> string list \<Rightarrow> unit result \<times> stock" where
  "process_add_stock t parts =
     for_each add_stock_body t (zip (slice2 0 parts) (slice2 1 parts))"

definition order_body :: "string \<Rightarrow> stock \<Rightarrow> string \<times> string \<Rightarrow> exn + stock" where
  "order_body order_ref t p =
     (case p of (sku, amount) \<Rightarrow>
        (case validate_pair sku amount of
           Inl (StockError _) \<Rightarrow> Inr t
         | Inl e \<Rightarrow> Inl e
         | Inr _ \<Rightarrow>
             (case t sku of
                None \<Rightarrow> Inl (StockError (SkuNotFound sku))
              | Some level \<Rightarrow>
                  (case py_int amount of
                     Inl e \<Rightarrow> Inl e
                   | Inr n \<Rightarrow>
                       if level < n then Inl (StockError (InsufficientStock order_ref sku))
                       else Inr (t(sku \<mapsto> level - n))))))"

definition process_order :: "stock \<Rightarrow> string list \<Rightarrow> unit result \<times> stock" where
  \<comment> \<open>\<open>parts[0]\<close> raises \<open>IndexError\<close> on the empty list\<close>
  "process_order t parts =
     (case parts of
        [] \<Rightarrow> (Inl IndexError, t)
      | order_ref # _ \<Rightarrow>
          for_each (order_body order_ref) t (zip (slice2 1 parts) (slice2 2 parts)))"

definition process_command :: "stock \<Rightarrow> string \<Rightarrow> unit result \<times> stock" where
  \<comment> \<open>\<open>parts[0]\<close> raises \<open>IndexError\<close> when the line has no token; \<open>parts[1:]\<close> never raises\<close>
  "process_command t instruction =
     (case py_split instruction of
        [] \<Rightarrow> (Inl IndexError, t)
      | operation # sku_and_amount_pairs \<Rightarrow>
          if operation = ''set-stock'' then process_set_stock t sku_and_amount_pairs
          else if operation = ''add-stock'' then process_add_stock t sku_and_amount_pairs
          else if operation = ''order'' then process_order t sku_and_amount_pairs
          else (Inl (StockError (UnknownOperation operation)), t))"

subsection \<open>The line loop\<close>

text \<open>
  \<open>process_stock_file\<close> creates a manager with the empty table and feeds it the lines of
  the file, stripped. It catches \<open>StockError\<close> and goes on with the next line; any other
  exception leaves the loop and ends the run. The file is the list of its lines; printing
  is not modelled.
\<close>

fun process_lines :: "stock \<Rightarrow> string list \<Rightarrow> exn option \<times> stock" where
  "process_lines t [] = (None, t)"
| "process_lines t (line # lines) =
     (case process_command t (py_strip line) of
        (Inr _, t') \<Rightarrow> process_lines t' lines
      | (Inl (StockError _), t') \<Rightarrow> process_lines t' lines
      | (Inl e, t') \<Rightarrow> (Some e, t'))"

definition process_stock_file :: "string list \<Rightarrow> exn option \<times> stock" where
  "process_stock_file lines = process_lines Map.empty lines"

subsection \<open>Notions used in the statements\<close>

definition pairs_of :: "string list \<Rightarrow> (string \<times> string) list" where
  \<comment> \<open>the (SKU, amount) pairs the loops of set-stock and add-stock run over\<close>
  "pairs_of parts = zip (slice2 0 parts) (slice2 1 parts)"

definition nonneg :: "stock \<Rightarrow> bool" where
  "nonneg t = (\<forall>sku level. t sku = Some level \<longrightarrow> 0 \<le> level)"

definition within_bounds :: "stock \<Rightarrow> bool" where
  "within_bounds t = (\<forall>sku level. t sku = Some level \<longrightarrow> 0 \<le> level \<and> level \<le> 999)"

definition token :: "string \<Rightarrow> bool" where
  \<comment> \<open>a word of an instruction line: not empty, no whitespace\<close>
  "token s = (s \<noteq> [] \<and> list_all (\<lambda>c. \<not> isspace c) s)"

definition apply_pair :: "stock \<Rightarrow> string \<times> string \<Rightarrow> stock" where
  \<comment> \<open>applying one pair of an order: a well-formed pair decrements the level of its SKU,
      a malformed pair is skipped\<close>
  "apply_pair t p =
     (case p of (sku, amount) \<Rightarrow>
        if validate_pair sku amount = Inr () then
          (case t sku of None \<Rightarrow> t | Some level \<Rightarrow> t(sku \<mapsto> level - decimal_value amount))
        else t)"

definition pair_fails :: "stock \<Rightarrow> string \<times> string \<Rightarrow> bool" where
  \<comment> \<open>a domain failure of an order pair: well-formed, and its SKU is absent or its level
      is below the amount\<close>
  "pair_fails t p =
     (case p of (sku, amount) \<Rightarrow>
        validate_pair sku amount = Inr () \<and>
        (case t sku of None \<Rightarrow> True | Some level \<Rightarrow> level < decimal_value amount))"

definition domain_error :: "string \<Rightarrow> stock \<Rightarrow> string \<times> string \<Rightarrow> stock_error" where
  \<comment> \<open>the error of a failing order pair\<close>
  "domain_error order_ref t p =
     (case p of (sku, amount) \<Rightarrow>
        (case t sku of None \<Rightarrow> SkuNotFound sku | Some _ \<Rightarrow> InsufficientStock order_ref sku))"

definition sku_grammar :: "string \<Rightarrow> bool" where
  \<comment> \<open>the SKU grammar as the specification words it: one to three upper-case letters, a
      hyphen, one to three digits, and nothing else\<close>
  "sku_grammar s =
     (let letters = takeWhile (\<lambda>c. c \<noteq> CHR ''-'') s; rest = dropWhile (\<lambda>c. c \<noteq> CHR ''-'') s
      in 1 \<le> length letters \<and> length letters \<le> 3 \<and> list_all is_upper letters \<and>
         rest \<noteq> [] \<and>
         1 \<le> length (tl rest) \<and> length (tl rest) \<le> 3 \<and> list_all is_decimal (tl rest))"

definition set_pair :: "stock \<Rightarrow> string \<times> string \<Rightarrow> stock" where
  \<comment> \<open>applying one pair of a set-stock: a well-formed pair sets the level of its SKU, a
      malformed pair is skipped\<close>
  "set_pair t p =
     (case p of (sku, amount) \<Rightarrow>
        if validate_pair sku amount = Inr () then t(sku \<mapsto> decimal_value amount) else t)"

section \<open>Basic facts\<close>

lemma every_other_Cons: "every_other (x # xs) = x # every_other (drop (Suc 0) xs)"
  by (cases xs) simp_all

lemma pairs_of_simps:
  "pairs_of [] = []"
  "pairs_of [a] = []"
  "pairs_of (a # b # parts) = (a, b) # pairs_of parts"
  by (simp_all add: pairs_of_def slice2_def every_other_Cons del: every_other.simps(3))

lemma order_slices: "zip (slice2 1 (r # parts)) (slice2 2 (r # parts)) = pairs_of parts"
  by (simp add: pairs_of_def slice2_def)

lemma validate_amount_ok:
  assumes "validate_amount amount = Inr ()"
  shows "py_int amount = Inr (decimal_value amount)"
    and "0 \<le> decimal_value amount" and "decimal_value amount \<le> 999"
  using assms
  by (auto simp: validate_amount_def py_int_def split: if_splits sum.splits)

lemma validate_pair_ok:
  assumes "validate_pair sku amount = Inr ()"
  shows "validate_sku sku = Inr ()" and "validate_amount amount = Inr ()"
  using assms by (auto simp: validate_pair_def split: sum.splits)

text \<open>Whatever a loop body keeps, the loop keeps, also when it stops at an exception.\<close>

lemma for_each_preserves:
  assumes "P t" and "\<And>t x t'. P t \<Longrightarrow> body t x = Inr t' \<Longrightarrow> P t'"
  shows "P (snd (for_each body t xs))"
  using assms(1)
proof (induction xs arbitrary: t)
  case Nil
  then show ?case by simp
next
  case (Cons x xs)
  show ?case
  proof (cases "body t x")
    case (Inl e)
    with Cons.prems show ?thesis by simp
  next
    case (Inr t')
    with Cons.prems assms(2) have "P t'" by blast
    with Cons.IH Inr show ?thesis by simp
  qed
qed

text \<open>What an iteration that does not raise does to the table.\<close>

lemma set_stock_body_cases:
  assumes "set_stock_body t (sku, amount) = Inr t'"
  shows "t' = t \<or> (validate_pair sku amount = Inr () \<and> t' = t(sku \<mapsto> decimal_value amount))"
  using assms validate_amount_ok(1) validate_pair_ok(2)
  by (fastforce simp: set_stock_body_def split: sum.splits exn.splits)

lemma add_stock_body_cases:
  assumes "add_stock_body t (sku, amount) = Inr t'"
  shows "t' = t \<or> (validate_pair sku amount = Inr () \<and>
           (\<exists>level. t sku = Some level \<and> t' = t(sku \<mapsto> level + decimal_value amount)))"
  using assms validate_amount_ok(1) validate_pair_ok(2)
  by (fastforce simp: add_stock_body_def split: sum.splits exn.splits option.splits)

lemma order_body_cases:
  assumes "order_body r t (sku, amount) = Inr t'"
  shows "t' = t \<or> (validate_pair sku amount = Inr () \<and>
           (\<exists>level. t sku = Some level \<and> decimal_value amount \<le> level \<and>
                    t' = t(sku \<mapsto> level - decimal_value amount)))"
  using assms validate_amount_ok(1) validate_pair_ok(2)
  by (fastforce simp: order_body_def split: sum.splits exn.splits option.splits if_splits)

lemma process_set_stock_pairs:
  "process_set_stock t parts = for_each set_stock_body t (pairs_of parts)"
  by (simp add: process_set_stock_def pairs_of_def)

lemma process_add_stock_pairs:
  "process_add_stock t parts = for_each add_stock_body t (pairs_of parts)"
  by (simp add: process_add_stock_def pairs_of_def)

lemma process_order_Nil: "process_order t [] = (Inl IndexError, t)"
  by (simp add: process_order_def)

lemma process_order_Cons:
  "process_order t (r # parts) = for_each (order_body r) t (pairs_of parts)"
  unfolding process_order_def pairs_of_def slice2_def by simp

text \<open>
  An invariant of the three loop bodies is an invariant of every handler and of
  \<open>process_command\<close>, whatever the outcome.
\<close>

lemma process_order_preserves:
  assumes "P t" and "\<And>r t p t'. P t \<Longrightarrow> order_body r t p = Inr t' \<Longrightarrow> P t'"
  shows "P (snd (process_order t parts))"
proof (cases parts)
  case Nil
  with assms(1) show ?thesis by (simp add: process_order_Nil)
next
  case (Cons r rest)
  have "P (snd (for_each (order_body r) t (pairs_of rest)))"
    using assms(1) assms(2) [of _ r] by (rule for_each_preserves)
  with Cons show ?thesis by (simp add: process_order_Cons)
qed

lemma process_command_preserves:
  assumes "P t"
    and "\<And>t p t'. P t \<Longrightarrow> set_stock_body t p = Inr t' \<Longrightarrow> P t'"
    and "\<And>t p t'. P t \<Longrightarrow> add_stock_body t p = Inr t' \<Longrightarrow> P t'"
    and "\<And>r t p t'. P t \<Longrightarrow> order_body r t p = Inr t' \<Longrightarrow> P t'"
  shows "P (snd (process_command t line))"
proof (cases "py_split line")
  case Nil
  with assms(1) show ?thesis by (simp add: process_command_def)
next
  case (Cons operation rest)
  have "P (snd (process_set_stock t rest))"
    unfolding process_set_stock_pairs using assms(1,2) by (rule for_each_preserves)
  moreover have "P (snd (process_add_stock t rest))"
    unfolding process_add_stock_pairs using assms(1,3) by (rule for_each_preserves)
  moreover have "P (snd (process_order t rest))"
    using assms(1,4) by (rule process_order_preserves)
  ultimately show ?thesis
    using Cons assms(1) by (simp add: process_command_def)
qed

lemma set_stock_body_nonneg: "nonneg t \<Longrightarrow> set_stock_body t p = Inr t' \<Longrightarrow> nonneg t'"
  using validate_amount_ok(2) validate_pair_ok(2)
  by (cases p) (fastforce simp: nonneg_def dest!: set_stock_body_cases split: if_splits)

lemma add_stock_body_nonneg: "nonneg t \<Longrightarrow> add_stock_body t p = Inr t' \<Longrightarrow> nonneg t'"
  using validate_amount_ok(2) validate_pair_ok(2)
  by (cases p) (fastforce simp: nonneg_def dest!: add_stock_body_cases split: if_splits)

lemma order_body_nonneg: "nonneg t \<Longrightarrow> order_body r t p = Inr t' \<Longrightarrow> nonneg t'"
  by (cases p) (fastforce simp: nonneg_def dest!: order_body_cases split: if_splits)

lemma set_stock_body_bounds: "within_bounds t \<Longrightarrow> set_stock_body t p = Inr t' \<Longrightarrow> within_bounds t'"
  using validate_amount_ok(2,3) validate_pair_ok(2)
  by (cases p) (fastforce simp: within_bounds_def dest!: set_stock_body_cases split: if_splits)

lemma order_body_bounds: "within_bounds t \<Longrightarrow> order_body r t p = Inr t' \<Longrightarrow> within_bounds t'"
  using validate_amount_ok(2,3) validate_pair_ok(2)
  by (cases p) (fastforce simp: within_bounds_def dest!: order_body_cases split: if_splits)

lemma process_command_nonneg:
  assumes "nonneg t"
  shows "nonneg (snd (process_command t line))"
  using assms set_stock_body_nonneg add_stock_body_nonneg order_body_nonneg
  by (rule process_command_preserves)

lemma process_lines_nonneg: "nonneg t \<Longrightarrow> nonneg (snd (process_lines t lines))"
proof (induction lines arbitrary: t)
  case Nil
  then show ?case by simp
next
  case (Cons line lines)
  obtain r t' where step: "process_command t (py_strip line) = (r, t')"
    by (cases "process_command t (py_strip line)")
  with process_command_nonneg [OF Cons.prems, of "py_strip line"] have "nonneg t'"
    by simp
  with Cons.IH step show ?case
    by (simp split: sum.splits exn.splits)
qed

section \<open>Bounds of the stored quantities\<close>

lemma run_overflow:
  "snd (process_stock_file [''set-stock AB-6 999'', ''add-stock AB-6 1'']) ''AB-6'' = Some 1000"
  by code_simp

text \<open>
  C1, as stated: after every sequence of instructions processed from the empty table,
  every stored quantity is within 0 and 999. It fails: after \<open>set-stock AB-6 999\<close> and
  \<open>add-stock AB-6 1\<close> the level of AB-6 is 1000.
\<close>

theorem stock_bound_counterexample:
  "\<not> within_bounds (snd (process_stock_file [''set-stock AB-6 999'', ''add-stock AB-6 1'']))"
  using run_overflow by (fastforce simp: within_bounds_def)

text \<open>
  C1, amended: after every sequence of instructions processed from the empty table every
  stored quantity is at least 0; add-stock keeps that lower bound for every table;
  set-stock and order keep the whole bound from 0 to 999. (add-stock adds to the level
  without a check of the sum, so it does not keep the upper bound.)
\<close>

theorem stock_bounds_amended:
  "nonneg (snd (process_stock_file lines)) \<and>
   (nonneg t \<longrightarrow> nonneg (snd (process_add_stock t parts))) \<and>
   (within_bounds t \<longrightarrow> within_bounds (snd (process_set_stock t parts))) \<and>
   (within_bounds t \<longrightarrow> within_bounds (snd (process_order t parts)))"
proof -
  have "nonneg Map.empty"
    by (simp add: nonneg_def)
  then have run: "nonneg (snd (process_stock_file lines))"
    unfolding process_stock_file_def by (rule process_lines_nonneg)
  have add: "nonneg (snd (process_add_stock t parts))" if "nonneg t"
    unfolding process_add_stock_pairs
    using that add_stock_body_nonneg by (rule for_each_preserves)
  have set: "within_bounds (snd (process_set_stock t parts))" if "within_bounds t"
    unfolding process_set_stock_pairs
    using that set_stock_body_bounds by (rule for_each_preserves)
  have ord: "within_bounds (snd (process_order t parts))" if "within_bounds t"
    using that order_body_bounds by (rule process_order_preserves)
  from run add set ord show ?thesis by blast
qed

theorem stock_bounds_amended_witness:
  "snd (process_stock_file [''set-stock AB-6 999'', ''add-stock AB-6 1'']) ''AB-6'' = Some 1000 \<and>
   nonneg (snd (process_stock_file [''set-stock AB-6 999'', ''add-stock AB-6 1''])) \<and>
   nonneg [''AB-6'' \<mapsto> 999] \<and>
   nonneg (snd (process_add_stock [''AB-6'' \<mapsto> 999] [''AB-6'', ''1''])) \<and>
   within_bounds [''AB-6'' \<mapsto> 999] \<and>
   within_bounds (snd (process_set_stock [''AB-6'' \<mapsto> 999] [''AB-6'', ''1''])) \<and>
   within_bounds (snd (process_order [''AB-6'' \<mapsto> 999] [''AB-6'', ''1'']))"
proof -
  have "within_bounds [''AB-6'' \<mapsto> 999]" "nonneg [''AB-6'' \<mapsto> 999]"
    by (simp_all add: within_bounds_def nonneg_def)
  with run_overflow
    stock_bounds_amended [of "[''set-stock AB-6 999'', ''add-stock AB-6 1'']"
      "[''AB-6'' \<mapsto> 999]" "[''AB-6'', ''1'']"]
  show ?thesis by simp
qed

section \<open>Loops over pairs\<close>

lemma even_pairs_append:
  "even (length pre) \<Longrightarrow> pairs_of (pre @ rest) = pairs_of pre @ pairs_of rest"
proof (induction pre rule: every_other.induct)
  case 1
  then show ?case by (simp add: pairs_of_simps)
next
  case (2 x)
  then show ?case by simp
next
  case (3 x y xs)
  then show ?case by (simp add: pairs_of_simps)
qed

lemma for_each_append:
  "for_each body t (xs @ ys) =
     (case for_each body t xs of
        (Inl e, t') \<Rightarrow> (Inl e, t')
      | (Inr _, t') \<Rightarrow> for_each body t' ys)"
  by (induction xs arbitrary: t) (auto split: sum.splits)

lemma for_each_after:
  assumes "for_each body t xs = (Inr (), t1)"
  shows "for_each body t (xs @ ys) = for_each body t1 ys"
  using assms by (simp add: for_each_append)

text \<open>The keys of the table: set-stock may add one, add-stock and order keep them.\<close>

lemma set_stock_body_dom: "k \<in> dom t \<Longrightarrow> set_stock_body t p = Inr t' \<Longrightarrow> k \<in> dom t'"
  by (cases p) (auto dest!: set_stock_body_cases)

lemma add_stock_body_dom: "add_stock_body t p = Inr t' \<Longrightarrow> dom t' = dom t"
  by (cases p) (auto dest!: add_stock_body_cases split: if_splits)

lemma order_body_dom: "order_body r t p = Inr t' \<Longrightarrow> dom t' = dom t"
  by (cases p) (auto dest!: order_body_cases split: if_splits)

lemma process_add_stock_dom: "dom (snd (process_add_stock t parts)) = dom t"
proof -
  have "dom (snd (for_each add_stock_body t (pairs_of parts))) = dom t"
    by (rule for_each_preserves [where P = "\<lambda>t'. dom t' = dom t"])
       (simp_all add: add_stock_body_dom)
  then show ?thesis by (simp add: process_add_stock_pairs)
qed

lemma order_body_insufficient:
  assumes "validate_pair sku amount = Inr ()" and "t sku = Some level"
    and "level < decimal_value amount"
  shows "order_body r t (sku, amount) = Inl (StockError (InsufficientStock r sku))"
  using assms validate_amount_ok(1) [OF validate_pair_ok(2) [OF assms(1)]]
  by (simp add: order_body_def)

lemma add_stock_body_absent:
  assumes "validate_pair sku amount = Inr ()" and "t sku = None"
  shows "add_stock_body t (sku, amount) = Inl (StockError (SkuNotFound sku))"
  using assms by (simp add: add_stock_body_def)

section \<open>Orders never drive a level negative\<close>

text \<open>
  C7: if every level of the table is non-negative, every level is non-negative after any
  call of \<open>process_command\<close>, whatever its outcome. And when an order reaches a
  well-formed pair (the pairs before it, \<open>pre\<close>, have run without an exception and
  left the table \<open>t1\<close>) whose amount exceeds the current level of its SKU, the order
  raises InsufficientStock for the order reference and that SKU, and the table stays
  \<open>t1\<close>: the pair mutates nothing.
\<close>

theorem order_never_negative:
  "(nonneg t \<longrightarrow> nonneg (snd (process_command t line))) \<and>
   (process_order t (r # pre) = (Inr (), t1) \<and> even (length pre) \<and>
    validate_pair sku amount = Inr () \<and> t1 sku = Some level \<and> level < decimal_value amount
    \<longrightarrow> process_order t (r # pre @ sku # amount # rest) =
          (Inl (StockError (InsufficientStock r sku)), t1))"
proof (intro conjI impI)
  assume "nonneg t"
  then show "nonneg (snd (process_command t line))"
    by (rule process_command_nonneg)
next
  assume a: "process_order t (r # pre) = (Inr (), t1) \<and> even (length pre) \<and>
    validate_pair sku amount = Inr () \<and> t1 sku = Some level \<and> level < decimal_value amount"
  then have run: "for_each (order_body r) t (pairs_of pre) = (Inr (), t1)"
    by (simp add: process_order_Cons)
  from a have "order_body r t1 (sku, amount) = Inl (StockError (InsufficientStock r sku))"
    by (simp add: order_body_insufficient)
  then have "for_each (order_body r) t1 (pairs_of (sku # amount # rest)) =
      (Inl (StockError (InsufficientStock r sku)), t1)"
    by (simp add: pairs_of_simps)
  with a for_each_after [OF run]
  show "process_order t (r # pre @ sku # amount # rest) =
      (Inl (StockError (InsufficientStock r sku)), t1)"
    by (simp add: process_order_Cons even_pairs_append)
qed

lemma order_ground:
  "validate_pair ''AB-6'' ''30'' = Inr ()" "py_int ''30'' = Inr 30"
  "validate_pair ''CD-3'' ''10'' = Inr ()" "decimal_value ''10'' = 10"
  "py_int ''10'' = Inr 10"
  by code_simp+

lemma order_prefix_run:
  "process_order [''AB-6'' \<mapsto> 100, ''CD-3'' \<mapsto> 5] [''ON-1'', ''AB-6'', ''30''] =
     (Inr (), [''AB-6'' \<mapsto> 100, ''CD-3'' \<mapsto> 5, ''AB-6'' \<mapsto> 70])"
  by (simp add: process_order_Cons pairs_of_simps order_body_def order_ground)

theorem order_never_negative_witness:
  "nonneg [''AB-6'' \<mapsto> 100, ''CD-3'' \<mapsto> 5] \<and>
   nonneg (snd (process_command [''AB-6'' \<mapsto> 100, ''CD-3'' \<mapsto> 5] ''order ON-1 AB-6 30 CD-3 10 AB-6 1'')) \<and>
   process_order [''AB-6'' \<mapsto> 100, ''CD-3'' \<mapsto> 5] [''ON-1'', ''AB-6'', ''30''] =
     (Inr (), [''AB-6'' \<mapsto> 100, ''CD-3'' \<mapsto> 5, ''AB-6'' \<mapsto> 70]) \<and>
   process_order [''AB-6'' \<mapsto> 100, ''CD-3'' \<mapsto> 5]
       [''ON-1'', ''AB-6'', ''30'', ''CD-3'', ''10'', ''AB-6'', ''1''] =
     (Inl (StockError (InsufficientStock ''ON-1'' ''CD-3'')),
      [''AB-6'' \<mapsto> 100, ''CD-3'' \<mapsto> 5, ''AB-6'' \<mapsto> 70])"
proof -
  have "nonneg [''AB-6'' \<mapsto> 100, ''CD-3'' \<mapsto> 5]"
    by (simp add: nonneg_def)
  with order_prefix_run
    order_never_negative [of "[''AB-6'' \<mapsto> 100, ''CD-3'' \<mapsto> 5]"
      "''order ON-1 AB-6 30 CD-3 10 AB-6 1''" "''ON-1''" "[''AB-6'', ''30'']"
      "[''AB-6'' \<mapsto> 100, ''CD-3'' \<mapsto> 5, ''AB-6'' \<mapsto> 70]" "''CD-3''" "''10''" 5 "[''AB-6'', ''1'']"]
  show ?thesis by (simp add: order_ground)
qed

section \<open>An add-stock of an absent SKU\<close>

text \<open>
  C6: when an add-stock reaches a well-formed pair (the pairs before it, \<open>pre\<close>, have run
  without an exception and left the table \<open>t1\<close>) whose SKU is absent from the table, it
  raises SkuNotFound for that SKU, the table stays \<open>t1\<close> whatever follows the pair, so no
  later pair is processed, and the SKU has no entry afterwards. More generally no
  add-stock, whatever its outcome, changes the set of keys.
\<close>

theorem add_stock_absent_sku:
  "(process_add_stock t pre = (Inr (), t1) \<and> even (length pre) \<and>
    validate_pair sku amount = Inr () \<and> t sku = None
    \<longrightarrow> process_add_stock t (pre @ sku # amount # rest) =
          (Inl (StockError (SkuNotFound sku)), t1) \<and> t1 sku = None) \<and>
   dom (snd (process_add_stock t parts)) = dom t"
proof (intro conjI impI)
  assume a: "process_add_stock t pre = (Inr (), t1) \<and> even (length pre) \<and>
    validate_pair sku amount = Inr () \<and> t sku = None"
  then have run: "for_each add_stock_body t (pairs_of pre) = (Inr (), t1)"
    by (simp add: process_add_stock_pairs)
  from a process_add_stock_dom [of t pre] have "dom t1 = dom t"
    by simp
  with a show absent: "t1 sku = None"
    by (metis domIff)
  with a have "add_stock_body t1 (sku, amount) = Inl (StockError (SkuNotFound sku))"
    by (simp add: add_stock_body_absent)
  then have "for_each add_stock_body t1 (pairs_of (sku # amount # rest)) =
      (Inl (StockError (SkuNotFound sku)), t1)"
    by (simp add: pairs_of_simps)
  with a for_each_after [OF run]
  show "process_add_stock t (pre @ sku # amount # rest) =
      (Inl (StockError (SkuNotFound sku)), t1)"
    by (simp add: process_add_stock_pairs even_pairs_append)
next
  show "dom (snd (process_add_stock t parts)) = dom t"
    by (rule process_add_stock_dom)
qed

lemma add_ground:
  "validate_pair ''AB-6'' ''20'' = Inr ()" "py_int ''20'' = Inr 20"
  "validate_pair ''ZF-9'' ''20'' = Inr ()"
  by code_simp+

lemma add_prefix_run:
  "process_add_stock [''AB-6'' \<mapsto> 100] [''AB-6'', ''20''] =
     (Inr (), [''AB-6'' \<mapsto> 100, ''AB-6'' \<mapsto> 120])"
  by (simp add: process_add_stock_pairs pairs_of_simps add_stock_body_def add_ground)

theorem add_stock_absent_sku_witness:
  "process_add_stock [''AB-6'' \<mapsto> 100] [''AB-6'', ''20''] =
     (Inr (), [''AB-6'' \<mapsto> 100, ''AB-6'' \<mapsto> 120]) \<and>
   validate_pair ''ZF-9'' ''20'' = Inr () \<and>
   [''AB-6'' \<mapsto> (100::int)] ''ZF-9'' = None \<and>
   process_add_stock [''AB-6'' \<mapsto> 100] [''AB-6'', ''20'', ''ZF-9'', ''20'', ''AB-6'', ''1''] =
     (Inl (StockError (SkuNotFound ''ZF-9'')), [''AB-6'' \<mapsto> 100, ''AB-6'' \<mapsto> 120]) \<and>
   [''AB-6'' \<mapsto> 100, ''AB-6'' \<mapsto> (120::int)] ''ZF-9'' = None"
  using add_prefix_run add_ground(3)
    add_stock_absent_sku [of "[''AB-6'' \<mapsto> 100]" "[''AB-6'', ''20'']"
      "[''AB-6'' \<mapsto> 100, ''AB-6'' \<mapsto> 120]" "''ZF-9''" "''20''" "[''AB-6'', ''1'']"]
  by simp

section \<open>Keys are never removed\<close>

text \<open>
  C10: every SKU that is a key of the table before a call of \<open>process_command\<close> is a key
  after it, whatever the instruction and its outcome.
\<close>

theorem keys_never_removed:
  assumes "sku \<in> dom t"
  shows "sku \<in> dom (snd (process_command t line))"
proof -
  have add: "sku \<in> dom t'" if "sku \<in> dom t0" "add_stock_body t0 p = Inr t'" for t0 p t'
    using that add_stock_body_dom by blast
  have ord: "sku \<in> dom t'" if "sku \<in> dom t0" "order_body r t0 p = Inr t'" for r t0 p t'
    using that order_body_dom by blast
  from assms set_stock_body_dom add ord show ?thesis
    by (rule process_command_preserves)
qed

lemma order_to_zero:
  "snd (process_command [''AB-6'' \<mapsto> 50] ''order ON-1 AB-6 50'') ''AB-6'' = Some 0"
  by code_simp

theorem keys_never_removed_witness:
  "''AB-6'' \<in> dom [''AB-6'' \<mapsto> (50::int)] \<and>
   ''AB-6'' \<in> dom (snd (process_command [''AB-6'' \<mapsto> 50] ''order ON-1 AB-6 50'')) \<and>
   snd (process_command [''AB-6'' \<mapsto> 50] ''order ON-1 AB-6 50'') ''AB-6'' = Some 0"
  using order_to_zero keys_never_removed [of "''AB-6''" "[''AB-6'' \<mapsto> 50]" "''order ON-1 AB-6 50''"]
  by simp

section \<open>Instructions without the token a handler reads\<close>

lemma py_split_order: "py_split ''order'' = [''order'']"
  by code_simp

lemma py_split_blank: "py_split [] = []" "py_split ''   '' = []"
  by code_simp+

text \<open>
  C9: the instruction that is the single token \<open>order\<close> raises \<open>IndexError\<close>, which is
  not a \<open>StockError\<close>, and leaves the table as it was: \<open>process_order\<close> reads
  \<open>parts[0]\<close> of the empty argument list.
\<close>

theorem order_without_reference:
  "process_order t [] = (Inl IndexError, t) \<and>
   process_command t ''order'' = (Inl IndexError, t) \<and>
   fst (process_command t ''order'') \<noteq> Inl (StockError e)"
  by (simp add: process_command_def py_split_order process_order_Nil)

text \<open>
  C3 says that an empty or blank line fails with UnknownOperation and the empty operation
  name. The program raises \<open>IndexError\<close> instead, at \<open>parts[0]\<close> in \<open>process_command\<close>;
  the table is not mutated. The line loop catches \<open>StockError\<close> only, so the run ends at
  such a line and the lines after it are not processed.
\<close>

theorem empty_instruction_index_error:
  "process_command t [] = (Inl IndexError, t) \<and>
   process_command t ''   '' = (Inl IndexError, t) \<and>
   process_command t [] \<noteq> (Inl (StockError (UnknownOperation [])), t) \<and>
   process_stock_file [[], ''set-stock AB-6 5''] = (Some IndexError, Map.empty)"
  by (simp add: process_command_def py_split_blank process_stock_file_def py_strip_def)

section \<open>Orders commit the pairs before a failure\<close>

lemma order_body_Inr:
  assumes "order_body r t p = Inr t'"
  shows "t' = apply_pair t p" and "\<not> pair_fails t p"
proof -
  obtain sku amount where p: "p = (sku, amount)" by (cases p)
  show "t' = apply_pair t p"
  proof (cases "validate_pair sku amount = Inr ()")
    case True
    with assms p validate_amount_ok(1) [OF validate_pair_ok(2) [OF True]] show ?thesis
      by (auto simp: order_body_def apply_pair_def split: option.splits if_splits)
  next
    case False
    with assms p show ?thesis
      by (auto simp: order_body_def apply_pair_def split: sum.splits exn.splits)
  qed
  show "\<not> pair_fails t p"
  proof (cases "validate_pair sku amount = Inr ()")
    case True
    with assms p validate_amount_ok(1) [OF validate_pair_ok(2) [OF True]] show ?thesis
      by (auto simp: order_body_def pair_fails_def split: option.splits if_splits)
  next
    case False
    with p show ?thesis by (simp add: pair_fails_def)
  qed
qed

lemma order_body_fails:
  assumes "pair_fails t p"
  shows "order_body r t p = Inl (StockError (domain_error r t p))"
proof -
  obtain sku amount where p: "p = (sku, amount)" by (cases p)
  with assms have ok: "validate_pair sku amount = Inr ()"
    by (simp add: pair_fails_def)
  with assms p validate_amount_ok(1) [OF validate_pair_ok(2) [OF ok]] show ?thesis
    by (auto simp: order_body_def pair_fails_def domain_error_def split: option.splits)
qed

lemma order_body_StockError:
  assumes "order_body r t p = Inl (StockError e)"
  shows "pair_fails t p" and "e = domain_error r t p"
proof -
  obtain sku amount where p: "p = (sku, amount)" by (cases p)
  have ok: "validate_pair sku amount = Inr ()"
    using assms p by (auto simp: order_body_def split: sum.splits exn.splits)
  with assms p validate_amount_ok(1) [OF validate_pair_ok(2) [OF ok]]
  show "pair_fails t p"
    by (auto simp: order_body_def pair_fails_def split: option.splits if_splits)
  then have "order_body r t p = Inl (StockError (domain_error r t p))"
    by (rule order_body_fails)
  with assms show "e = domain_error r t p" by simp
qed

lemma order_loop_failure:
  assumes "for_each (order_body r) t ps = (Inl (StockError e), t')"
  shows "\<exists>n<length ps.
           (\<forall>i<n. \<not> pair_fails (foldl apply_pair t (take i ps)) (ps ! i)) \<and>
           pair_fails (foldl apply_pair t (take n ps)) (ps ! n) \<and>
           t' = foldl apply_pair t (take n ps) \<and>
           e = domain_error r t' (ps ! n)"
  using assms
proof (induction ps arbitrary: t)
  case Nil
  then show ?case by simp
next
  case (Cons p ps)
  show ?case
  proof (cases "order_body r t p")
    case (Inl x)
    with Cons.prems have x: "x = StockError e" and t': "t' = t"
      by simp_all
    from Inl x order_body_StockError [of r t p e]
    have "pair_fails t p" and "e = domain_error r t p"
      by simp_all
    with t' have "0 < length (p # ps) \<and>
        (\<forall>i<0. \<not> pair_fails (foldl apply_pair t (take i (p # ps))) ((p # ps) ! i)) \<and>
        pair_fails (foldl apply_pair t (take 0 (p # ps))) ((p # ps) ! 0) \<and>
        t' = foldl apply_pair t (take 0 (p # ps)) \<and>
        e = domain_error r t' ((p # ps) ! 0)"
      by simp
    then show ?thesis by blast
  next
    case (Inr t1)
    from order_body_Inr [OF Inr] have t1: "t1 = apply_pair t p" and ok: "\<not> pair_fails t p"
      by simp_all
    from Cons.prems Inr have "for_each (order_body r) t1 ps = (Inl (StockError e), t')"
      by simp
    from Cons.IH [OF this] obtain n where n: "n < length ps"
      and before: "\<forall>i<n. \<not> pair_fails (foldl apply_pair t1 (take i ps)) (ps ! i)"
      and at: "pair_fails (foldl apply_pair t1 (take n ps)) (ps ! n)"
      and t': "t' = foldl apply_pair t1 (take n ps)"
      and e: "e = domain_error r t' (ps ! n)"
      by blast
    have "\<not> pair_fails (foldl apply_pair t (take i (p # ps))) ((p # ps) ! i)" if "i < Suc n" for i
    proof (cases i)
      case 0
      with ok show ?thesis by simp
    next
      case (Suc j)
      with that before t1 show ?thesis by simp
    qed
    with n at t' e t1 have "Suc n < length (p # ps) \<and>
        (\<forall>i<Suc n. \<not> pair_fails (foldl apply_pair t (take i (p # ps))) ((p # ps) ! i)) \<and>
        pair_fails (foldl apply_pair t (take (Suc n) (p # ps))) ((p # ps) ! Suc n) \<and>
        t' = foldl apply_pair t (take (Suc n) (p # ps)) \<and>
        e = domain_error r t' ((p # ps) ! Suc n)"
      by simp
    then show ?thesis by blast
  qed
qed

lemma order_loop_success:
  assumes "for_each (order_body r) t ps = (Inr (), t')"
  shows "t' = foldl apply_pair t ps"
  using assms
proof (induction ps arbitrary: t)
  case Nil
  then show ?case by simp
next
  case (Cons p ps)
  then show ?case
    by (cases "order_body r t p") (auto dest: order_body_Inr(1))
qed

text \<open>
  C2: when an order fails with a \<open>StockError\<close>, there is a first failing pair (no pair
  before it fails at its turn), the error is the domain error of that pair, SkuNotFound
  or InsufficientStock, and the final table is the table obtained by applying, in order,
  exactly the pairs before it: their decrements stay. And when an order reaches a failing
  pair (the pairs before it, \<open>pre\<close>, have run without an exception and left the table
  \<open>t1\<close>), it fails there and the final table is \<open>t1\<close> whatever follows the pair: the
  remaining pairs are not processed.
\<close>

theorem order_partial_commit:
  "(process_order t (order_ref # rest) = (Inl (StockError e), t') \<longrightarrow>
      (\<exists>n<length (pairs_of rest).
          (\<forall>i<n. \<not> pair_fails (foldl apply_pair t (take i (pairs_of rest))) (pairs_of rest ! i)) \<and>
          pair_fails (foldl apply_pair t (take n (pairs_of rest))) (pairs_of rest ! n) \<and>
          t' = foldl apply_pair t (take n (pairs_of rest)) \<and>
          e = domain_error order_ref t' (pairs_of rest ! n))) \<and>
   (process_order t (order_ref # pre) = (Inr (), t1) \<and> even (length pre) \<and>
    pair_fails t1 (sku, amount) \<longrightarrow>
      t1 = foldl apply_pair t (pairs_of pre) \<and>
      process_order t (order_ref # pre @ sku # amount # more) =
        (Inl (StockError (domain_error order_ref t1 (sku, amount))), t1))"
proof (intro conjI impI)
  assume "process_order t (order_ref # rest) = (Inl (StockError e), t')"
  then have "for_each (order_body order_ref) t (pairs_of rest) = (Inl (StockError e), t')"
    by (simp add: process_order_Cons)
  then show "\<exists>n<length (pairs_of rest).
      (\<forall>i<n. \<not> pair_fails (foldl apply_pair t (take i (pairs_of rest))) (pairs_of rest ! i)) \<and>
      pair_fails (foldl apply_pair t (take n (pairs_of rest))) (pairs_of rest ! n) \<and>
      t' = foldl apply_pair t (take n (pairs_of rest)) \<and>
      e = domain_error order_ref t' (pairs_of rest ! n)"
    by (rule order_loop_failure)
next
  assume a: "process_order t (order_ref # pre) = (Inr (), t1) \<and> even (length pre) \<and>
    pair_fails t1 (sku, amount)"
  then have run: "for_each (order_body order_ref) t (pairs_of pre) = (Inr (), t1)"
    by (simp add: process_order_Cons)
  then show "t1 = foldl apply_pair t (pairs_of pre)"
    by (rule order_loop_success)
  from a have "order_body order_ref t1 (sku, amount) =
      Inl (StockError (domain_error order_ref t1 (sku, amount)))"
    by (simp add: order_body_fails)
  then have "for_each (order_body order_ref) t1 (pairs_of (sku # amount # more)) =
      (Inl (StockError (domain_error order_ref t1 (sku, amount))), t1)"
    by (simp add: pairs_of_simps)
  with a for_each_after [OF run]
  show "process_order t (order_ref # pre @ sku # amount # more) =
      (Inl (StockError (domain_error order_ref t1 (sku, amount))), t1)"
    by (simp add: process_order_Cons even_pairs_append)
qed

lemma order_full_run:
  "process_order [''AB-6'' \<mapsto> 100, ''CD-3'' \<mapsto> 5]
       [''ON-1'', ''AB-6'', ''30'', ''CD-3'', ''10'', ''AB-6'', ''1''] =
     (Inl (StockError (InsufficientStock ''ON-1'' ''CD-3'')),
      [''AB-6'' \<mapsto> 100, ''CD-3'' \<mapsto> 5, ''AB-6'' \<mapsto> 70])"
  by (simp add: process_order_Cons pairs_of_simps order_body_def order_ground)

lemma order_pair_fails:
  "pair_fails [''AB-6'' \<mapsto> 100, ''CD-3'' \<mapsto> 5, ''AB-6'' \<mapsto> 70] (''CD-3'', ''10'')"
  by (simp add: pair_fails_def order_ground)

theorem order_partial_commit_witness:
  "process_order [''AB-6'' \<mapsto> 100, ''CD-3'' \<mapsto> 5]
       [''ON-1'', ''AB-6'', ''30'', ''CD-3'', ''10'', ''AB-6'', ''1''] =
     (Inl (StockError (InsufficientStock ''ON-1'' ''CD-3'')),
      [''AB-6'' \<mapsto> 100, ''CD-3'' \<mapsto> 5, ''AB-6'' \<mapsto> 70]) \<and>
   (\<exists>n<length (pairs_of [''AB-6'', ''30'', ''CD-3'', ''10'', ''AB-6'', ''1'']).
      (\<forall>i<n. \<not> pair_fails
          (foldl apply_pair [''AB-6'' \<mapsto> 100, ''CD-3'' \<mapsto> 5]
             (take i (pairs_of [''AB-6'', ''30'', ''CD-3'', ''10'', ''AB-6'', ''1''])))
          (pairs_of [''AB-6'', ''30'', ''CD-3'', ''10'', ''AB-6'', ''1''] ! i)) \<and>
      pair_fails
        (foldl apply_pair [''AB-6'' \<mapsto> 100, ''CD-3'' \<mapsto> 5]
           (take n (pairs_of [''AB-6'', ''30'', ''CD-3'', ''10'', ''AB-6'', ''1''])))
        (pairs_of [''AB-6'', ''30'', ''CD-3'', ''10'', ''AB-6'', ''1''] ! n) \<and>
      [''AB-6'' \<mapsto> 100, ''CD-3'' \<mapsto> 5, ''AB-6'' \<mapsto> 70] =
        foldl apply_pair [''AB-6'' \<mapsto> 100, ''CD-3'' \<mapsto> 5]
          (take n (pairs_of [''AB-6'', ''30'', ''CD-3'', ''10'', ''AB-6'', ''1''])) \<and>
      InsufficientStock ''ON-1'' ''CD-3'' =
        domain_error ''ON-1'' [''AB-6'' \<mapsto> 100, ''CD-3'' \<mapsto> 5, ''AB-6'' \<mapsto> 70]
          (pairs_of [''AB-6'', ''30'', ''CD-3'', ''10'', ''AB-6'', ''1''] ! n)) \<and>
   process_order [''AB-6'' \<mapsto> 100, ''CD-3'' \<mapsto> 5] [''ON-1'', ''AB-6'', ''30''] =
     (Inr (), [''AB-6'' \<mapsto> 100, ''CD-3'' \<mapsto> 5, ''AB-6'' \<mapsto> 70]) \<and>
   pair_fails [''AB-6'' \<mapsto> 100, ''CD-3'' \<mapsto> 5, ''AB-6'' \<mapsto> 70] (''CD-3'', ''10'') \<and>
   [''AB-6'' \<mapsto> 100, ''CD-3'' \<mapsto> 5, ''AB-6'' \<mapsto> 70] =
     foldl apply_pair [''AB-6'' \<mapsto> 100, ''CD-3'' \<mapsto> 5] (pairs_of [''AB-6'', ''30''])"
proof -
  note inst = order_partial_commit [of "[''AB-6'' \<mapsto> 100, ''CD-3'' \<mapsto> 5]" "''ON-1''"
      "[''AB-6'', ''30'', ''CD-3'', ''10'', ''AB-6'', ''1'']"
      "InsufficientStock ''ON-1'' ''CD-3''"
      "[''AB-6'' \<mapsto> 100, ''CD-3'' \<mapsto> 5, ''AB-6'' \<mapsto> 70]"
      "[''AB-6'', ''30'']"
      "[''AB-6'' \<mapsto> 100, ''CD-3'' \<mapsto> 5, ''AB-6'' \<mapsto> 70]"
      "''CD-3''" "''10''" "[''AB-6'', ''1'']"]
  from inst order_full_run have first: "\<exists>n<length (pairs_of [''AB-6'', ''30'', ''CD-3'', ''10'', ''AB-6'', ''1'']).
      (\<forall>i<n. \<not> pair_fails
          (foldl apply_pair [''AB-6'' \<mapsto> 100, ''CD-3'' \<mapsto> 5]
             (take i (pairs_of [''AB-6'', ''30'', ''CD-3'', ''10'', ''AB-6'', ''1''])))
          (pairs_of [''AB-6'', ''30'', ''CD-3'', ''10'', ''AB-6'', ''1''] ! i)) \<and>
      pair_fails
        (foldl apply_pair [''AB-6'' \<mapsto> 100, ''CD-3'' \<mapsto> 5]
           (take n (pairs_of [''AB-6'', ''30'', ''CD-3'', ''10'', ''AB-6'', ''1''])))
        (pairs_of [''AB-6'', ''30'', ''CD-3'', ''10'', ''AB-6'', ''1''] ! n) \<and>
      [''AB-6'' \<mapsto> 100, ''CD-3'' \<mapsto> 5, ''AB-6'' \<mapsto> 70] =
        foldl apply_pair [''AB-6'' \<mapsto> 100, ''CD-3'' \<mapsto> 5]
          (take n (pairs_of [''AB-6'', ''30'', ''CD-3'', ''10'', ''AB-6'', ''1''])) \<and>
      InsufficientStock ''ON-1'' ''CD-3'' =
        domain_error ''ON-1'' [''AB-6'' \<mapsto> 100, ''CD-3'' \<mapsto> 5, ''AB-6'' \<mapsto> 70]
          (pairs_of [''AB-6'', ''30'', ''CD-3'', ''10'', ''AB-6'', ''1''] ! n)"
    by blast
  from inst order_prefix_run order_pair_fails
  have second: "[''AB-6'' \<mapsto> 100, ''CD-3'' \<mapsto> 5, ''AB-6'' \<mapsto> 70] =
     foldl apply_pair [''AB-6'' \<mapsto> 100, ''CD-3'' \<mapsto> 5] (pairs_of [''AB-6'', ''30''])"
    by simp
  from first second order_full_run order_prefix_run order_pair_fails show ?thesis
    by blast
qed

section \<open>Tokens of a line\<close>

lemma split_from_word:
  "list_all (\<lambda>c. \<not> isspace c) w \<Longrightarrow> split_from cur (w @ rest) = split_from (rev w @ cur) rest"
  by (induction w arbitrary: cur) simp_all

lemma isspace_blank: "isspace CHR '' ''"
  by code_simp

lemma py_split_last: "token w \<Longrightarrow> split_from [] w = [w]"
  using split_from_word [of w "[]" "[]"] by (simp add: token_def)

lemma py_split_word:
  "token w \<Longrightarrow> split_from [] (w @ CHR '' '' # rest) = w # split_from [] rest"
  using split_from_word [of w "[]" "CHR '' '' # rest"] by (simp add: token_def isspace_blank)

lemma token_set_stock: "token ''set-stock''"
  by code_simp

lemma decimal_not_space: "is_decimal c \<Longrightarrow> \<not> isspace c"
  by (auto simp: is_decimal_def isspace_def less_eq_char_def Let_def)

lemma valid_amount_token:
  assumes "validate_amount amount = Inr ()"
  shows "token amount"
proof -
  from assms have "amount \<noteq> []" and "list_all is_decimal amount"
    by (auto simp: validate_amount_def py_int_def isdigit_def split: if_splits sum.splits)
  then show ?thesis
    by (auto simp: token_def list_all_iff decimal_not_space)
qed

lemma py_split_set_stock:
  assumes "token sku" and "token amount"
  shows "py_split (''set-stock '' @ sku @ '' '' @ amount) = [''set-stock'', sku, amount]"
proof -
  have "py_split (''set-stock '' @ sku @ '' '' @ amount) =
      split_from [] (''set-stock'' @ CHR '' '' # sku @ CHR '' '' # amount)"
    by (simp add: py_split_def)
  also have "\<dots> = ''set-stock'' # split_from [] (sku @ CHR '' '' # amount)"
    using token_set_stock by (rule py_split_word)
  also have "split_from [] (sku @ CHR '' '' # amount) = sku # split_from [] amount"
    using assms(1) by (rule py_split_word)
  also have "split_from [] amount = [amount]"
    using assms(2) by (rule py_split_last)
  finally show ?thesis .
qed

lemma set_stock_one_pair:
  assumes "validate_sku sku = Inr ()" and "validate_amount amount = Inr ()"
  shows "process_set_stock t [sku, amount] = (Inr (), t(sku \<mapsto> decimal_value amount))"
  using assms validate_amount_ok(1) [OF assms(2)]
  by (simp add: process_set_stock_pairs pairs_of_simps set_stock_body_def validate_pair_def)

section \<open>set-stock twice\<close>

text \<open>
  C8: for a valid SKU \<open>X\<close> and a valid amount \<open>N\<close>, the instruction \<open>set-stock X N\<close> run
  twice in succession leaves the same table as run once, with the value \<open>N\<close> for \<open>X\<close>,
  and both runs succeed. (\<open>X\<close> is a word of the line, so it has no whitespace.)
\<close>

theorem set_stock_idempotent:
  assumes "validate_sku X = Inr ()" and "token X" and "validate_amount N = Inr ()"
  shows "process_command t (''set-stock '' @ X @ '' '' @ N) = (Inr (), t(X \<mapsto> decimal_value N)) \<and>
         process_command (snd (process_command t (''set-stock '' @ X @ '' '' @ N)))
             (''set-stock '' @ X @ '' '' @ N) =
           process_command t (''set-stock '' @ X @ '' '' @ N) \<and>
         snd (process_command (snd (process_command t (''set-stock '' @ X @ '' '' @ N)))
             (''set-stock '' @ X @ '' '' @ N)) X = Some (decimal_value N)"
proof -
  have tokens: "py_split (''set-stock '' @ X @ '' '' @ N) = [''set-stock'', X, N]"
    using assms(2) valid_amount_token [OF assms(3)] by (rule py_split_set_stock)
  have once: "process_command t0 (''set-stock '' @ X @ '' '' @ N) =
      (Inr (), t0(X \<mapsto> decimal_value N))" for t0
    unfolding process_command_def tokens
    using set_stock_one_pair [OF assms(1,3)] by simp
  then show ?thesis by simp
qed

lemma set_stock_ground:
  "validate_sku ''AB-6'' = Inr ()" "token ''AB-6''" "validate_amount ''100'' = Inr ()"
  "decimal_value ''100'' = 100"
  by code_simp+

theorem set_stock_idempotent_witness:
  "validate_sku ''AB-6'' = Inr () \<and> token ''AB-6'' \<and> validate_amount ''100'' = Inr () \<and>
   process_command [''AB-6'' \<mapsto> 7] ''set-stock AB-6 100'' =
     (Inr (), [''AB-6'' \<mapsto> 7, ''AB-6'' \<mapsto> 100]) \<and>
   process_command (snd (process_command [''AB-6'' \<mapsto> 7] ''set-stock AB-6 100''))
       ''set-stock AB-6 100'' =
     process_command [''AB-6'' \<mapsto> 7] ''set-stock AB-6 100'' \<and>
   snd (process_command (snd (process_command [''AB-6'' \<mapsto> 7] ''set-stock AB-6 100''))
       ''set-stock AB-6 100'') ''AB-6'' = Some 100"
proof -
  have line: "''set-stock '' @ ''AB-6'' @ '' '' @ ''100'' = ''set-stock AB-6 100''"
    by simp
  note inst = set_stock_idempotent [OF set_stock_ground(1-3), of "[''AB-6'' \<mapsto> 7]",
      unfolded line set_stock_ground(4)]
  with set_stock_ground(1-3) show ?thesis by blast
qed

section \<open>The SKU pattern\<close>

lemma class_facts:
  "\<not> is_upper CHR ''-''" "\<not> is_decimal CHR 0x0A"
  by code_simp+

lemma sku_grammar_iff:
  "sku_grammar s \<longleftrightarrow>
     (\<exists>L D. s = L @ CHR ''-'' # D \<and> 1 \<le> length L \<and> length L \<le> 3 \<and> list_all is_upper L \<and>
            1 \<le> length D \<and> length D \<le> 3 \<and> list_all is_decimal D)"
  (is "?lhs \<longleftrightarrow> ?rhs")
proof
  assume g: ?lhs
  let ?P = "\<lambda>c. c \<noteq> CHR ''-''"
  from g have ne: "dropWhile ?P s \<noteq> []"
    by (simp add: sku_grammar_def Let_def)
  then have "hd (dropWhile ?P s) = CHR ''-''"
    using hd_dropWhile [of ?P s] by simp
  with ne have "dropWhile ?P s = CHR ''-'' # tl (dropWhile ?P s)"
    by (cases "dropWhile ?P s") simp_all
  then have "s = takeWhile ?P s @ CHR ''-'' # tl (dropWhile ?P s)"
    by (metis takeWhile_dropWhile_id)
  with g show ?rhs
    unfolding sku_grammar_def Let_def by blast
next
  assume ?rhs
  then obtain L D where s: "s = L @ CHR ''-'' # D"
    and L: "1 \<le> length L" "length L \<le> 3" "list_all is_upper L"
    and D: "1 \<le> length D" "length D \<le> 3" "list_all is_decimal D"
    by blast
  from L(3) have "\<forall>c\<in>set L. c \<noteq> CHR ''-''"
    using class_facts(1) by (auto simp: list_all_iff)
  then have "takeWhile (\<lambda>c. c \<noteq> CHR ''-'') s = L" "dropWhile (\<lambda>c. c \<noteq> CHR ''-'') s = CHR ''-'' # D"
    by (simp_all add: s takeWhile_tail dropWhile_append3)
  with L D show ?lhs
    by (simp add: sku_grammar_def)
qed

lemma sku_match_iff:
  "sku_match s \<longleftrightarrow>
     (\<exists>L D. (s = L @ CHR ''-'' # D \<or> s = L @ CHR ''-'' # D @ [CHR 0x0A]) \<and>
            1 \<le> length L \<and> length L \<le> 3 \<and> list_all is_upper L \<and>
            1 \<le> length D \<and> length D \<le> 3 \<and> list_all is_decimal D)"
  (is "?lhs \<longleftrightarrow> ?rhs")
proof
  assume m: ?lhs
  define L where "L = takeWhile is_upper s"
  define r1 where "r1 = dropWhile is_upper s"
  from m obtain r2 where r1: "r1 = CHR ''-'' # r2"
    by (auto simp: sku_match_def Let_def r1_def split: list.splits)
  define D where "D = takeWhile is_decimal r2"
  define r3 where "r3 = dropWhile is_decimal r2"
  from m r1 have len: "1 \<le> length L" "length L \<le> 3" "1 \<le> length D" "length D \<le> 3"
    and tail: "r3 = [] \<or> r3 = [CHR 0x0A]"
    by (simp_all add: sku_match_def Let_def L_def r1_def [symmetric] D_def r3_def)
  have "s = L @ r1"
    by (simp add: L_def r1_def)
  moreover have "r2 = D @ r3"
    by (simp add: D_def r3_def)
  ultimately have "s = L @ CHR ''-'' # D @ r3"
    using r1 by simp
  with tail have "s = L @ CHR ''-'' # D \<or> s = L @ CHR ''-'' # D @ [CHR 0x0A]"
    by auto
  moreover have "list_all is_upper L" "list_all is_decimal D"
    by (auto simp: list_all_iff L_def D_def dest: set_takeWhileD)
  ultimately show ?rhs
    using len by blast
next
  assume ?rhs
  then obtain L D where alt: "s = L @ CHR ''-'' # D \<or> s = L @ CHR ''-'' # D @ [CHR 0x0A]"
    and L: "1 \<le> length L" "length L \<le> 3" "list_all is_upper L"
    and D: "1 \<le> length D" "length D \<le> 3" "list_all is_decimal D"
    by blast
  define tail where "tail = (if s = L @ CHR ''-'' # D then [] else [CHR 0x0A])"
  from alt have s: "s = L @ CHR ''-'' # D @ tail"
    and tail: "tail = [] \<or> tail = [CHR 0x0A]"
    by (auto simp: tail_def)
  from L(3) have m1: "takeWhile is_upper s = L"
    and m2: "dropWhile is_upper s = CHR ''-'' # D @ tail"
    using class_facts(1) by (simp_all add: s list_all_iff takeWhile_tail dropWhile_append3)
  from D(3) tail have m3: "takeWhile is_decimal (D @ tail) = D"
    and m4: "dropWhile is_decimal (D @ tail) = tail"
    using class_facts(2) by (auto simp: list_all_iff)
  have "sku_match s \<longleftrightarrow>
      1 \<le> length L \<and> length L \<le> 3 \<and> 1 \<le> length D \<and> length D \<le> 3 \<and>
      (tail = [] \<or> tail = [CHR 0x0A])"
    unfolding sku_match_def Let_def m1 m2 list.case m3 m4 by simp
  with L D tail show ?lhs
    by blast
qed

text \<open>
  What \<open>validate_sku\<close> accepts: the strings of the SKU grammar, and those strings
  followed by one line feed. Everything else raises the \<open>StockError\<close> of the SKU format.
\<close>

lemma validate_sku_accepts:
  "validate_sku s = Inr () \<longleftrightarrow>
     sku_grammar s \<or> (\<exists>s'. s = s' @ [CHR 0x0A] \<and> sku_grammar s')"
proof -
  have "validate_sku s = Inr () \<longleftrightarrow> sku_match s"
    by (simp add: validate_sku_def)
  also have "\<dots> \<longleftrightarrow> sku_grammar s \<or> (\<exists>s'. s = s' @ [CHR 0x0A] \<and> sku_grammar s')"
  proof
    assume "sku_match s"
    then obtain L D where "s = L @ CHR ''-'' # D \<or> s = (L @ CHR ''-'' # D) @ [CHR 0x0A]"
      and "sku_grammar (L @ CHR ''-'' # D)"
      unfolding sku_match_iff sku_grammar_iff by auto
    then show "sku_grammar s \<or> (\<exists>s'. s = s' @ [CHR 0x0A] \<and> sku_grammar s')"
      by auto
  next
    assume "sku_grammar s \<or> (\<exists>s'. s = s' @ [CHR 0x0A] \<and> sku_grammar s')"
    then obtain s' where s': "sku_grammar s'" and "s = s' \<or> s = s' @ [CHR 0x0A]"
      by blast
    from s' obtain L D where "s' = L @ CHR ''-'' # D"
      and shape: "1 \<le> length L" "length L \<le> 3" "list_all is_upper L"
        "1 \<le> length D" "length D \<le> 3" "list_all is_decimal D"
      unfolding sku_grammar_iff by blast
    with \<open>s = s' \<or> s = s' @ [CHR 0x0A]\<close>
    have "s = L @ CHR ''-'' # D \<or> s = L @ CHR ''-'' # D @ [CHR 0x0A]"
      by auto
    with shape show "sku_match s"
      unfolding sku_match_iff by blast
  qed
  finally show ?thesis .
qed

lemma validate_sku_rejects:
  "validate_sku s \<noteq> Inr () \<Longrightarrow> validate_sku s = Inl (StockError (InvalidSkuFormat s))"
  by (simp add: validate_sku_def split: if_splits)

text \<open>
  C4 says that \<open>validate_sku\<close> succeeds exactly on the strings of the SKU grammar, with no
  trailing character, line feed included. The pattern ends with \<open>$\<close>, which also matches
  before a final line feed: \<open>validate_sku\<close> accepts \<open>AB-6\<close> followed by a line feed, a
  string outside the grammar.
\<close>

theorem validate_sku_trailing_newline:
  "validate_sku (''AB-6'' @ [CHR 0x0A]) = Inr () \<and> \<not> sku_grammar (''AB-6'' @ [CHR 0x0A])"
  by code_simp

section \<open>What set-stock does with its pairs\<close>

lemma pairs_of_length: "length (pairs_of parts) = length parts div 2"
  by (induction parts rule: every_other.induct) (simp_all add: pairs_of_simps)

lemma pairs_of_nth:
  "i < length parts div 2 \<Longrightarrow> pairs_of parts ! i = (parts ! (2 * i), parts ! (2 * i + 1))"
proof (induction parts arbitrary: i rule: every_other.induct)
  case 1
  then show ?case by simp
next
  case (2 x)
  then show ?case by simp
next
  case (3 x y xs)
  then show ?case
    by (cases i) (simp_all add: pairs_of_simps)
qed

lemma validate_pair_errors:
  "validate_pair sku amount = Inl e \<Longrightarrow>
     e = StockError (InvalidSkuFormat sku) \<or> e = StockError (InvalidAmountFormat amount) \<or>
     e = ValueError"
  by (auto simp: validate_pair_def validate_sku_def validate_amount_def py_int_def
      split: sum.splits if_splits)

lemma set_stock_body_plain:
  assumes "validate_pair sku amount \<noteq> Inl ValueError"
  shows "set_stock_body t (sku, amount) = Inr (set_pair t (sku, amount))"
proof (cases "validate_pair sku amount")
  case (Inl e)
  with assms validate_pair_errors [OF Inl] show ?thesis
    by (auto simp: set_stock_body_def set_pair_def)
next
  case (Inr u)
  then have ok: "validate_pair sku amount = Inr ()" by simp
  from validate_amount_ok(1) [OF validate_pair_ok(2) [OF ok]] ok show ?thesis
    by (simp add: set_stock_body_def set_pair_def)
qed

text \<open>
  set-stock on arguments none of whose pairs raises \<open>ValueError\<close>: the pairs are taken
  by position, a last token without a partner is dropped, a malformed pair is skipped, and
  every well-formed pair sets the level of its SKU, in order.
\<close>

lemma set_stock_without_value_error:
  assumes "\<forall>p\<in>set (pairs_of parts). validate_pair (fst p) (snd p) \<noteq> Inl ValueError"
  shows "process_set_stock t parts = (Inr (), foldl set_pair t (pairs_of parts))"
proof -
  have "for_each set_stock_body t ps = (Inr (), foldl set_pair t ps)"
    if "\<forall>p\<in>set ps. validate_pair (fst p) (snd p) \<noteq> Inl ValueError" for ps
    using that
  proof (induction ps arbitrary: t)
    case Nil
    then show ?case by simp
  next
    case (Cons p ps)
    obtain sku amount where p: "p = (sku, amount)" by (cases p)
    with Cons.prems have "set_stock_body t p = Inr (set_pair t p)"
      by (simp add: set_stock_body_plain)
    with Cons show ?case by simp
  qed
  with assms show ?thesis
    by (simp add: process_set_stock_pairs)
qed

section \<open>Amounts that are digits but not decimal\<close>

text \<open>
  C5 says that set-stock skips a pair whose amount fails validation and still applies
  every other well-formed pair. For the amount that is the superscript two (U+00B2),
  \<open>isdigit\<close> holds and \<open>int\<close> raises \<open>ValueError\<close>, which the \<open>except StockError\<close> of the
  loop does not catch: the instruction ends there, the well-formed pair after it is not
  applied, and the line loop, which catches \<open>StockError\<close> only, ends the run.
\<close>

theorem set_stock_value_error:
  "validate_amount [CHR 0xB2] = Inl ValueError \<and>
   validate_pair ''CD-3'' ''5'' = Inr () \<and>
   fst (process_set_stock Map.empty [''AB-6'', [CHR 0xB2], ''CD-3'', ''5'']) = Inl ValueError \<and>
   snd (process_set_stock Map.empty [''AB-6'', [CHR 0xB2], ''CD-3'', ''5'']) ''CD-3'' = None \<and>
   fst (process_stock_file [''set-stock AB-6 '' @ [CHR 0xB2] @ '' CD-3 5'', ''set-stock CD-3 5'']) =
     Some ValueError \<and>
   snd (process_stock_file [''set-stock AB-6 '' @ [CHR 0xB2] @ '' CD-3 5'', ''set-stock CD-3 5''])
     ''CD-3'' = None"
  by code_simp

end
